theory Spec2Isabelle
  imports Main "HOL-Library.Word" "HOL-Library.Signed_Division"
begin

section \<open>Machine integers of the C sources\<close>

text \<open>
  The two modules are C for the 32-bit microcontrollers the firmware runs on:
  \<open>int\<close> and \<open>unsigned int\<close> are 32 bits wide, \<open>int16_t\<close> and \<open>uint16_t\<close> 16 bits.
  A value of a 16-bit type is a \<open>16 word\<close>, a value of \<open>int\<close>, \<open>unsigned int\<close> or
  \<open>int32_t\<close> a \<open>32 word\<close>; \<open>sint\<close> reads a word as two's complement, \<open>uint\<close> as
  unsigned. Arithmetic on words wraps around, which is what the compiled code does
  (also for signed \<open>int\<close>, where the C standard leaves overflow undefined).

  The integer promotions and conversions of C are written out:
  \<^item> \<open>scast\<close> sign-extends an \<open>int16_t\<close> to \<open>int\<close>;
  \<^item> \<open>ucast\<close> from 16 to 32 bits zero-extends a \<open>uint16_t\<close> to \<open>int\<close> or \<open>unsigned int\<close>;
  \<^item> \<open>ucast\<close> from 32 to 16 bits is the conversion that keeps the low 16 bits.
\<close>

type_synonym int16_t = "16 word"
type_synonym uint16_t = "16 word"
type_synonym int32_t = "32 word"
type_synonym uint32_t = "32 word"

text \<open>\<open>abs\<close> of \<open>stdlib.h\<close>, on \<open>int\<close>.\<close>

definition abs_int :: "int32_t \<Rightarrow> int32_t" where
  "abs_int x = (if x <s 0 then - x else x)"

text \<open>Division of two \<open>int\<close>s: C truncates the quotient towards zero.\<close>

definition div_int :: "int32_t \<Rightarrow> int32_t \<Rightarrow> int32_t" where
  "div_int a b = word_of_int (sint a sdiv sint b)"

section \<open>The framework's events\<close>

text \<open>
  The event structures come from headers of the host framework. The sources read
  \<open>event->type\<close>, take \<open>&event->pointing\<close>, read \<open>dx\<close> and \<open>dy\<close> into \<open>int16_t\<close>
  locals and write \<open>dx\<close>, \<open>dy\<close> and \<open>type\<close>: the fields are modelled with exactly
  these types.
\<close>

datatype input_event_type = ZMK_INPUT_EVENT_TYPE_POINTING | ZMK_INPUT_EVENT_TYPE_OTHER

datatype pointing_event_type = ZMK_POINTING_EVENT_MOVE | ZMK_POINTING_EVENT_SCROLL

record zmk_pointing_event =
  pointing_dx :: int16_t
  pointing_dy :: int16_t
  pointing_type :: pointing_event_type

record zmk_input_event =
  event_type :: input_event_type
  pointing :: zmk_pointing_event

section \<open>The pointer module: src/modules/circular_scroll.c\<close>

record circular_scroll_state =
  cs_active :: bool
  cs_prev_angle :: uint16_t

text \<open>The initialiser of \<open>cs_state\<close>, which \<open>circular_scroll_init\<close> restores.\<close>

definition cs_state_init :: circular_scroll_state where
  "cs_state_init = \<lparr>cs_active = False, cs_prev_angle = 0\<rparr>"

text \<open>
  The steps of \<open>pseudo_angle\<close>, one definition for each declaration:
  \<^item> \<open>int16_t ax = abs(dx)\<close>: promote, take \<open>abs\<close>, convert back to 16 bits;
  \<^item> \<open>uint16_t sum = ax + ay\<close>: added as \<open>int\<close>, converted to 16 bits;
  \<^item> \<open>uint16_t ratio = (ay * 1024U) / sum\<close>: \<open>ay\<close> is promoted to \<open>int\<close>
    and converted to \<open>unsigned int\<close> (the same 32 bits), \<open>sum\<close> likewise; the
    product and quotient are unsigned.
  The parameter \<open>sm\<close> of \<open>ratio16\<close> is the source's \<open>sum\<close>, a name HOL has taken.
\<close>

definition abs16 :: "int16_t \<Rightarrow> int16_t" where
  "abs16 d = ucast (abs_int (scast d))"

definition sum16 :: "int16_t \<Rightarrow> int16_t \<Rightarrow> uint16_t" where
  "sum16 ax ay = ucast ((scast ax :: int32_t) + scast ay)"

definition ratio16 :: "int16_t \<Rightarrow> uint16_t \<Rightarrow> uint16_t" where
  "ratio16 ay sm = ucast (((scast ay :: uint32_t) * 1024) div ucast sm)"

definition pseudo_angle :: "int16_t \<Rightarrow> int16_t \<Rightarrow> uint16_t" where
  "pseudo_angle dx dy =
    (let ax = abs16 dx; ay = abs16 dy;
         sum = sum16 ax ay
     in if sum = 0 then 0
        else
          let ratio = ratio16 ay sum
          in if 0 \<le>s dx \<and> 0 \<le>s dy then ratio
             else if dx <s 0 \<and> 0 \<le>s dy then ucast (1024 + (1024 - (ucast ratio :: uint32_t)))
             else if dx <s 0 \<and> dy <s 0 then ucast (2048 + (ucast ratio :: uint32_t))
             else ucast (3072 + (1024 - (ucast ratio :: uint32_t))))"

text \<open>\<open>int32_t mag_sq = dx * dx + dy * dy\<close>, computed in \<open>int\<close>.\<close>

definition mag_sq :: "int16_t \<Rightarrow> int16_t \<Rightarrow> int32_t" where
  "mag_sq dx dy = (scast dx :: int32_t) * scast dx + scast dy * scast dy"

definition dead_zone_sq :: int32_t where
  "dead_zone_sq = 25"

text \<open>
  The difference of the two angles with the correction at the wrap-around:
  \<open>int16_t delta = (int16_t)angle - (int16_t)prev_angle\<close>, then \<open>delta -= 4096\<close>
  when \<open>delta > 2048\<close>, else \<open>delta += 4096\<close> when \<open>delta < -2048\<close>. The comparisons
  and the compound assignments work on the promoted \<open>int\<close>.
\<close>

definition raw_delta :: "uint16_t \<Rightarrow> uint16_t \<Rightarrow> int16_t" where
  "raw_delta angle prev = ucast ((scast angle :: int32_t) - scast prev)"

definition wrap_delta :: "int16_t \<Rightarrow> int16_t" where
  "wrap_delta delta =
    (if (2048 :: int32_t) <s scast delta then ucast ((scast delta :: int32_t) - 4096)
     else if (scast delta :: int32_t) <s - 2048 then ucast ((scast delta :: int32_t) + 4096)
     else delta)"

text \<open>\<open>int scroll_value = (delta * gain) / 1024\<close>; the source writes the gain as a literal.\<close>

definition scroll_value_of :: "int32_t \<Rightarrow> int16_t \<Rightarrow> int32_t" where
  "scroll_value_of gain delta = div_int (scast delta * gain) 1024"

text \<open>
  \<open>circular_scroll_process\<close> changes \<open>cs_state\<close> and the event in place and returns
  0 (event untouched) or 1 (event rewritten into a scroll event). The model takes the
  state and the event and returns the returned \<open>int\<close>, the new state and the new event.
  The literal 10 of the scaling is the first argument of \<open>circular_scroll_process_gain\<close>.
\<close>

definition circular_scroll_process_gain ::
  "int32_t \<Rightarrow> circular_scroll_state \<Rightarrow> zmk_input_event
    \<Rightarrow> int32_t \<times> circular_scroll_state \<times> zmk_input_event" where
  "circular_scroll_process_gain gain cs_state event =
    (if event_type event \<noteq> ZMK_INPUT_EVENT_TYPE_POINTING then (0, cs_state, event)
     else
       let pevent = pointing event;
           dx = pointing_dx pevent;
           dy = pointing_dy pevent
       in if mag_sq dx dy <s dead_zone_sq then (0, cs_state\<lparr>cs_active := False\<rparr>, event)
          else
            let angle = pseudo_angle dx dy
            in if \<not> cs_active cs_state
               then (0, cs_state\<lparr>cs_active := True, cs_prev_angle := angle\<rparr>, event)
               else
                 let delta = wrap_delta (raw_delta angle (cs_prev_angle cs_state));
                     scroll_value = scroll_value_of gain delta
                 in (1, cs_state\<lparr>cs_prev_angle := angle\<rparr>,
                     event\<lparr>pointing := pevent\<lparr>pointing_dx := 0, pointing_dy := ucast scroll_value,
                                               pointing_type := ZMK_POINTING_EVENT_SCROLL\<rparr>\<rparr>))"

definition circular_scroll_process ::
  "circular_scroll_state \<Rightarrow> zmk_input_event
    \<Rightarrow> int32_t \<times> circular_scroll_state \<times> zmk_input_event" where
  "circular_scroll_process = circular_scroll_process_gain 10"

text \<open>
  The framework calls the registered processor once for every event, in order.
  \<open>circular_scroll_run\<close> does that for a list of events and collects, for each event,
  the returned \<open>int\<close> and the event as the processor left it.
\<close>

fun circular_scroll_run ::
  "int32_t \<Rightarrow> circular_scroll_state \<Rightarrow> zmk_input_event list
    \<Rightarrow> circular_scroll_state \<times> (int32_t \<times> zmk_input_event) list" where
  "circular_scroll_run gain cs_state [] = (cs_state, [])"
| "circular_scroll_run gain cs_state (event # events) =
    (case circular_scroll_process_gain gain cs_state event of
       (ret, cs_state', event') \<Rightarrow>
         (case circular_scroll_run gain cs_state' events of
            (final, outs) \<Rightarrow> (final, (ret, event') # outs)))"

section \<open>The trackpad module: src/modules/circular_scroll/circular_scroll.c\<close>

text \<open>
  The trackpad module is translated from its own source, with every expression written
  where the source has it, so that comparing the two modules compares the two sources.
\<close>

record trackpad_scroll_state =
  tp_active :: bool
  tp_prev_angle :: uint16_t

definition tp_state_init :: trackpad_scroll_state where
  "tp_state_init = \<lparr>tp_active = False, tp_prev_angle = 0\<rparr>"

definition compute_pseudo_angle :: "int16_t \<Rightarrow> int16_t \<Rightarrow> uint16_t" where
  "compute_pseudo_angle dx dy =
    (let adx = (ucast (abs_int (scast dx)) :: int16_t);
         ady = (ucast (abs_int (scast dy)) :: int16_t);
         sum = (ucast ((scast adx :: int32_t) + scast ady) :: uint16_t)
     in if sum = 0 then 0
        else
          let ratio = (ucast (((scast ady :: uint32_t) * 1024) div ucast sum) :: uint16_t)
          in if 0 \<le>s dx \<and> 0 \<le>s dy then ratio
             else if dx <s 0 \<and> 0 \<le>s dy then ucast (1024 + (1024 - (ucast ratio :: uint32_t)))
             else if dx <s 0 \<and> dy <s 0 then ucast (2048 + (ucast ratio :: uint32_t))
             else ucast (3072 + (1024 - (ucast ratio :: uint32_t))))"

text \<open>The literal 1 of the scaling is the first argument of \<open>trackpad_scroll_process_gain\<close>.\<close>

definition trackpad_scroll_process_gain ::
  "int32_t \<Rightarrow> trackpad_scroll_state \<Rightarrow> zmk_input_event
    \<Rightarrow> int32_t \<times> trackpad_scroll_state \<times> zmk_input_event" where
  "trackpad_scroll_process_gain gain tp_state event =
    (if event_type event \<noteq> ZMK_INPUT_EVENT_TYPE_POINTING then (0, tp_state, event)
     else
       let pevent = pointing event;
           dx = pointing_dx pevent;
           dy = pointing_dy pevent;
           mag_sq = (scast dx :: int32_t) * scast dx + scast dy * scast dy;
           dead_zone_sq = (25 :: int32_t)
       in if mag_sq <s dead_zone_sq then (0, tp_state\<lparr>tp_active := False\<rparr>, event)
          else
            let angle = compute_pseudo_angle dx dy
            in if \<not> tp_active tp_state
               then (0, tp_state\<lparr>tp_active := True, tp_prev_angle := angle\<rparr>, event)
               else
                 let delta = (ucast ((scast angle :: int32_t) - scast (tp_prev_angle tp_state))
                               :: int16_t);
                     delta =
                       (if (2048 :: int32_t) <s scast delta
                        then ucast ((scast delta :: int32_t) - 4096)
                        else if (scast delta :: int32_t) <s - 2048
                        then ucast ((scast delta :: int32_t) + 4096)
                        else delta);
                     scroll_value = div_int (scast delta * gain) 1024
                 in (1, tp_state\<lparr>tp_prev_angle := angle\<rparr>,
                     event\<lparr>pointing := pevent\<lparr>pointing_dx := 0, pointing_dy := ucast scroll_value,
                                               pointing_type := ZMK_POINTING_EVENT_SCROLL\<rparr>\<rparr>))"

definition trackpad_scroll_process ::
  "trackpad_scroll_state \<Rightarrow> zmk_input_event
    \<Rightarrow> int32_t \<times> trackpad_scroll_state \<times> zmk_input_event" where
  "trackpad_scroll_process = trackpad_scroll_process_gain 1"

fun trackpad_scroll_run ::
  "int32_t \<Rightarrow> trackpad_scroll_state \<Rightarrow> zmk_input_event list
    \<Rightarrow> trackpad_scroll_state \<times> (int32_t \<times> zmk_input_event) list" where
  "trackpad_scroll_run gain tp_state [] = (tp_state, [])"
| "trackpad_scroll_run gain tp_state (event # events) =
    (case trackpad_scroll_process_gain gain tp_state event of
       (ret, tp_state', event') \<Rightarrow>
         (case trackpad_scroll_run gain tp_state' events of
            (final, outs) \<Rightarrow> (final, (ret, event') # outs)))"

section \<open>Vocabulary of the properties\<close>

text \<open>
  A motion sample is a pointing event carrying \<open>dx\<close> and \<open>dy\<close>; its squared magnitude
  is taken over the integers, without any machine width.
\<close>

definition sample :: "int16_t \<Rightarrow> int16_t \<Rightarrow> zmk_input_event" where
  "sample dx dy =
    \<lparr>event_type = ZMK_INPUT_EVENT_TYPE_POINTING,
     pointing = \<lparr>pointing_dx = dx, pointing_dy = dy, pointing_type = ZMK_POINTING_EVENT_MOVE\<rparr>\<rparr>"

definition magnitude_sq :: "int16_t \<Rightarrow> int16_t \<Rightarrow> int" where
  "magnitude_sq dx dy = sint dx * sint dx + sint dy * sint dy"

text \<open>The scroll event the processor leaves behind when it returns 1.\<close>

definition scroll_event :: "zmk_input_event \<Rightarrow> int16_t \<Rightarrow> zmk_input_event" where
  "scroll_event event v =
    event\<lparr>pointing := (pointing event)\<lparr>pointing_dx := 0, pointing_dy := v,
                                        pointing_type := ZMK_POINTING_EVENT_SCROLL\<rparr>\<rparr>"

text \<open>The two state structures have the same fields; \<open>tp_of_cs\<close> copies them across.\<close>

definition tp_of_cs :: "circular_scroll_state \<Rightarrow> trackpad_scroll_state" where
  "tp_of_cs s = \<lparr>tp_active = cs_active s, tp_prev_angle = cs_prev_angle s\<rparr>"

section \<open>Integer arithmetic behind the ratio\<close>

lemma div_less_bound:
  fixes x y k :: int
  assumes "0 < y" and "x < k * y"
  shows "x div y < k"
proof (rule ccontr)
  assume "\<not> x div y < k"
  then have "k \<le> x div y" by simp
  then have "y * k \<le> y * (x div y)"
    using assms(1) by (simp add: mult_left_mono)
  moreover have "y * (x div y) \<le> x"
    using assms(1) mult_div_mod_eq [of y x] pos_mod_sign [of y x] by linarith
  ultimately show False using assms(2) by (simp add: mult.commute)
qed

lemma ratio_nonneg:
  fixes a b :: int
  assumes "0 \<le> b" and "0 < a + b"
  shows "0 \<le> b * 1024 div (a + b)"
  using assms by (simp add: pos_imp_zdiv_nonneg_iff)

lemma ratio_le:
  fixes a b :: int
  assumes "0 \<le> a" and "0 < a + b"
  shows "b * 1024 div (a + b) \<le> 1024"
proof -
  have "b * 1024 \<le> 1024 * (a + b)" using assms(1) by simp
  then have "b * 1024 div (a + b) \<le> 1024 * (a + b) div (a + b)"
    using assms(2) by (rule zdiv_mono1)
  moreover have "1024 * (a + b) div (a + b) = 1024"
    using assms(2) nonzero_mult_div_cancel_right [of "a + b" 1024] by linarith
  ultimately show ?thesis by linarith
qed

lemma ratio_less:
  fixes a b :: int
  assumes "0 < a" and "0 < a + b"
  shows "b * 1024 div (a + b) < 1024"
  using assms by (intro div_less_bound) simp_all

lemma square_bound:
  fixes k :: int
  assumes "\<bar>k\<bar> \<le> n"
  shows "k * k \<le> n * n"
proof -
  have "\<bar>k\<bar> * \<bar>k\<bar> \<le> n * n"
    using assms by (intro mult_mono) simp_all
  then show ?thesis by simp
qed

section \<open>Reading 16-bit and 32-bit values as integers\<close>

lemma sint16_lower: "- 32768 \<le> sint (d :: 16 word)"
  using sint_ge [of d] by simp

lemma sint16_upper: "sint (d :: 16 word) \<le> 32767"
  using sint_lt [of d] by simp

lemma uint16_upper: "uint (w :: 16 word) \<le> 65535"
  using uint_lt2p [of w] by simp

lemma sint16_mod: "sint (w :: 16 word) mod 65536 = uint w"
proof -
  have "sint w = (uint w + 32768) mod 65536 - 32768"
    by (simp add: sint_uint signed_take_bit_eq_take_bit_shift take_bit_eq_mod)
  then have "sint w mod 65536 = ((uint w + 32768) mod 65536 - 32768 mod 65536) mod 65536"
    by simp
  also have "\<dots> = (uint w + 32768 - 32768) mod 65536"
    by (simp only: mod_diff_eq)
  also have "\<dots> = uint w"
    using uint16_upper [of w] by simp
  finally show ?thesis .
qed

lemma sint_small16:
  assumes "uint (w :: 16 word) \<le> 32767"
  shows "sint w = uint w"
proof -
  have "- 32768 \<le> uint w"
    using uint_ge_0 [of w] by linarith
  then have "- (2 ^ 15) \<le> uint w"
    by simp
  moreover have "uint w < 2 ^ 15"
    using assms by simp
  ultimately have "signed_take_bit 15 (uint w) = uint w"
    by (rule signed_take_bit_int_eq_self)
  then show ?thesis by (simp add: sint_uint)
qed

lemma sint_of_int16:
  assumes "- 32768 \<le> k" and "k \<le> 32767"
  shows "sint (word_of_int k :: 16 word) = k"
  using assms by (simp add: sint_sbintrunc' signed_take_bit_int_eq_self)

lemma sint_of_int32:
  assumes "- 2147483648 \<le> k" and "k \<le> 2147483647"
  shows "sint (word_of_int k :: 32 word) = k"
  using assms by (simp add: sint_sbintrunc' signed_take_bit_int_eq_self)

text \<open>Promotion to \<open>int\<close> keeps the value; conversion to 16 bits keeps it modulo 65536.\<close>

lemma sint_promote: "sint (scast (d :: 16 word) :: 32 word) = sint d"
  by (simp add: sint_up_scast is_up)

lemma uint_promote: "uint (ucast (w :: 16 word) :: 32 word) = uint w"
  by (simp add: uint_up_ucast is_up)

lemma uint_truncate: "uint (ucast (w :: 32 word) :: 16 word) = uint w mod 65536"
  by (simp add: unsigned_ucast_eq take_bit_eq_mod)

lemma uint_promote_nonneg:
  assumes "0 \<le> sint (d :: 16 word)"
  shows "uint (scast d :: 32 word) = sint d"
proof -
  have "uint (scast d :: 32 word) = uint (word_of_int (sint d) :: 32 word)"
    by (simp only: scast_eq)
  also have "\<dots> = sint d mod 2 ^ LENGTH(32)"
    by (simp only: uint_word_of_int)
  also have "\<dots> = sint d"
    using assms sint16_upper [of d] by simp
  finally show ?thesis .
qed

lemma truncate_of_int: "(ucast (word_of_int k :: 32 word) :: 16 word) = word_of_int k"
proof (rule word_uint_eqI)
  have "uint (ucast (word_of_int k :: 32 word) :: 16 word) = k mod 2 ^ LENGTH(32) mod 65536"
    by (simp only: uint_truncate uint_word_of_int)
  also have "\<dots> = k mod 65536"
    by (simp add: mod_mod_cancel)
  also have "\<dots> = uint (word_of_int k :: 16 word)"
    by (simp add: uint_word_of_int)
  finally show "uint (ucast (word_of_int k :: 32 word) :: 16 word) = uint (word_of_int k :: 16 word)" .
qed

lemma sint_truncate:
  assumes "- 32768 \<le> sint x" and "sint x \<le> 32767"
  shows "sint (ucast (x :: 32 word) :: 16 word) = sint x"
proof -
  have "(ucast x :: 16 word) = ucast (word_of_int (sint x) :: 32 word)"
    by simp
  also have "\<dots> = word_of_int (sint x)"
    by (rule truncate_of_int)
  finally show ?thesis
    using assms by (simp only: sint_of_int16)
qed

section \<open>The steps of the angle estimator\<close>

lemma abs_int_promote: "abs_int (scast (d :: 16 word)) = word_of_int \<bar>sint d\<bar>"
proof (cases "sint d < 0")
  case True
  then have "abs_int (scast d) = - scast d"
    by (simp add: abs_int_def word_sless_alt sint_promote)
  also have "\<dots> = word_of_int (- sint d)"
    unfolding scast_eq wi_hom_neg ..
  finally show ?thesis using True by simp
next
  case False
  then have "abs_int (scast d) = scast d"
    by (simp add: abs_int_def word_sless_alt sint_promote)
  also have "\<dots> = word_of_int (sint d)"
    unfolding scast_eq ..
  finally show ?thesis using False by simp
qed

lemma uint_abs_int: "uint (abs_int (scast (d :: 16 word))) = \<bar>sint d\<bar>"
  using sint16_lower [of d] sint16_upper [of d]
  by (simp add: abs_int_promote uint_word_of_int)

lemma uint_abs16: "uint (abs16 d) = \<bar>sint d\<bar>"
  using sint16_lower [of d] sint16_upper [of d]
  by (simp add: abs16_def uint_truncate uint_abs_int)

text \<open>
  Read as the \<open>int16_t\<close> it is declared as, \<open>ax\<close> is the absolute value of \<open>dx\<close>
  for every \<open>dx\<close> but \<open>-32768\<close>.
\<close>

lemma sint_abs16: "sint d \<noteq> - 32768 \<Longrightarrow> sint (abs16 d) = \<bar>sint d\<bar>"
  using sint16_lower [of d] sint16_upper [of d] uint_abs16 [of d]
  by (simp add: sint_uint signed_take_bit_int_eq_self)

lemma uint_sum16: "uint (sum16 ax ay) = (sint ax + sint ay) mod 65536"
proof -
  have "(scast ax :: 32 word) + scast ay = word_of_int (sint ax + sint ay)"
    by (simp only: scast_eq wi_hom_add)
  then have "uint ((scast ax :: 32 word) + scast ay) = (sint ax + sint ay) mod 2 ^ LENGTH(32)"
    by (simp only: uint_word_of_int)
  then have "uint (sum16 ax ay) = (sint ax + sint ay) mod 4294967296 mod 65536"
    by (simp add: sum16_def uint_truncate)
  also have "\<dots> = (sint ax + sint ay) mod 65536"
    by (rule mod_mod_cancel) simp
  finally show ?thesis .
qed

lemma uint_sum16_abs:
  "uint (sum16 (abs16 dx) (abs16 dy)) = (\<bar>sint dx\<bar> + \<bar>sint dy\<bar>) mod 65536"
proof -
  have "uint (sum16 (abs16 dx) (abs16 dy))
      = (sint (abs16 dx) mod 65536 + sint (abs16 dy) mod 65536) mod 65536"
    by (simp only: uint_sum16 mod_add_eq)
  then show ?thesis by (simp only: sint16_mod uint_abs16)
qed

lemma uint_sum16_exact:
  assumes "\<not> (sint dx = - 32768 \<and> sint dy = - 32768)"
  shows "uint (sum16 (abs16 dx) (abs16 dy)) = \<bar>sint dx\<bar> + \<bar>sint dy\<bar>"
proof -
  have "0 \<le> \<bar>sint dx\<bar> + \<bar>sint dy\<bar>" and "\<bar>sint dx\<bar> + \<bar>sint dy\<bar> < 65536"
    using assms sint16_lower [of dx] sint16_upper [of dx] sint16_lower [of dy] sint16_upper [of dy]
    by linarith+
  then show ?thesis by (simp only: uint_sum16_abs mod_pos_pos_trivial)
qed

lemma sum16_zero_iff:
  assumes "sint dy \<noteq> - 32768"
  shows "sum16 (abs16 dx) (abs16 dy) = 0 \<longleftrightarrow> sint dx = 0 \<and> sint dy = 0"
proof -
  have "sum16 (abs16 dx) (abs16 dy) = 0 \<longleftrightarrow> uint (sum16 (abs16 dx) (abs16 dy)) = 0"
    by (simp add: uint_0_iff)
  also have "\<dots> \<longleftrightarrow> \<bar>sint dx\<bar> + \<bar>sint dy\<bar> = 0"
    using assms by (simp add: uint_sum16_exact)
  also have "\<dots> \<longleftrightarrow> sint dx = 0 \<and> sint dy = 0"
    by linarith
  finally show ?thesis .
qed

lemma uint_ratio16:
  assumes "0 \<le> sint ay"
  shows "uint (ratio16 ay sm) = (sint ay * 1024 div uint sm) mod 65536"
proof -
  have "uint ((scast ay :: 32 word) * 1024) = sint ay * 1024"
    using assms sint16_upper [of ay] by (simp add: uint_word_ariths uint_promote_nonneg)
  then show ?thesis
    by (simp add: ratio16_def uint_truncate uint_div uint_promote)
qed

lemma uint_ratio16_abs:
  assumes "sint dy \<noteq> - 32768" and "\<not> (sint dx = 0 \<and> sint dy = 0)"
  shows "uint (ratio16 (abs16 dy) (sum16 (abs16 dx) (abs16 dy)))
       = \<bar>sint dy\<bar> * 1024 div (\<bar>sint dx\<bar> + \<bar>sint dy\<bar>)"
proof -
  let ?r = "\<bar>sint dy\<bar> * 1024 div (\<bar>sint dx\<bar> + \<bar>sint dy\<bar>)"
  have pos: "0 < \<bar>sint dx\<bar> + \<bar>sint dy\<bar>"
    using assms(2) by linarith
  have "0 \<le> ?r"
    using pos by (intro ratio_nonneg) simp_all
  moreover have "?r \<le> 1024"
    using pos by (intro ratio_le) simp_all
  ultimately have small: "?r mod 65536 = ?r"
    by (simp only: mod_pos_pos_trivial)
  have "uint (ratio16 (abs16 dy) (sum16 (abs16 dx) (abs16 dy)))
      = (sint (abs16 dy) * 1024 div uint (sum16 (abs16 dx) (abs16 dy))) mod 65536"
    using assms(1) by (intro uint_ratio16) (simp add: sint_abs16)
  also have "\<dots> = ?r mod 65536"
    using assms(1) by (simp add: sint_abs16 uint_sum16_exact)
  finally show ?thesis using small by simp
qed

lemma uint_angle_q2:
  assumes "uint ratio \<le> 1024"
  shows "uint (ucast (1024 + (1024 - (ucast (ratio :: 16 word) :: 32 word))) :: 16 word)
       = 2048 - uint ratio"
proof -
  have "0 \<le> uint ratio" by simp
  with assms have "(2048 - uint ratio) mod 4294967296 = 2048 - uint ratio"
    and "(2048 - uint ratio) mod 65536 = 2048 - uint ratio"
    by (simp_all only: mod_pos_pos_trivial)
  then show ?thesis
    by (simp add: uint_truncate uint_word_ariths uint_promote)
qed

lemma uint_angle_q3:
  assumes "uint ratio \<le> 1024"
  shows "uint (ucast (2048 + (ucast (ratio :: 16 word) :: 32 word)) :: 16 word)
       = 2048 + uint ratio"
proof -
  have "0 \<le> uint ratio" by simp
  with assms have "(2048 + uint ratio) mod 4294967296 = 2048 + uint ratio"
    and "(2048 + uint ratio) mod 65536 = 2048 + uint ratio"
    by (simp_all only: mod_pos_pos_trivial)
  then show ?thesis
    by (simp add: uint_truncate uint_word_ariths uint_promote)
qed

lemma uint_angle_q4:
  assumes "uint ratio \<le> 1024"
  shows "uint (ucast (3072 + (1024 - (ucast (ratio :: 16 word) :: 32 word))) :: 16 word)
       = 4096 - uint ratio"
proof -
  have "0 \<le> uint ratio" by simp
  with assms have "(4096 - uint ratio) mod 4294967296 = 4096 - uint ratio"
    and "(4096 - uint ratio) mod 65536 = 4096 - uint ratio"
    by (simp_all only: mod_pos_pos_trivial)
  then show ?thesis
    by (simp add: uint_truncate uint_word_ariths uint_promote)
qed

text \<open>
  The value of \<open>pseudo_angle\<close> over the integers, for every \<open>dx\<close> and every \<open>dy\<close> other
  than \<open>-32768\<close>: the ratio \<open>|dy| * 1024 / (|dx| + |dy|)\<close>, placed into the quadrant.
\<close>

lemma pseudo_angle_uint:
  assumes "sint dy \<noteq> - 32768"
  shows "uint (pseudo_angle dx dy) =
    (if sint dx = 0 \<and> sint dy = 0 then 0
     else if 0 \<le> sint dx \<and> 0 \<le> sint dy
       then \<bar>sint dy\<bar> * 1024 div (\<bar>sint dx\<bar> + \<bar>sint dy\<bar>)
     else if sint dx < 0 \<and> 0 \<le> sint dy
       then 2048 - \<bar>sint dy\<bar> * 1024 div (\<bar>sint dx\<bar> + \<bar>sint dy\<bar>)
     else if sint dx < 0 \<and> sint dy < 0
       then 2048 + \<bar>sint dy\<bar> * 1024 div (\<bar>sint dx\<bar> + \<bar>sint dy\<bar>)
     else 4096 - \<bar>sint dy\<bar> * 1024 div (\<bar>sint dx\<bar> + \<bar>sint dy\<bar>))"
proof (cases "sint dx = 0 \<and> sint dy = 0")
  case True
  then have "sum16 (abs16 dx) (abs16 dy) = 0"
    using assms by (simp add: sum16_zero_iff)
  then show ?thesis using True by (simp add: pseudo_angle_def)
next
  case False
  let ?ratio = "ratio16 (abs16 dy) (sum16 (abs16 dx) (abs16 dy))"
  let ?r = "\<bar>sint dy\<bar> * 1024 div (\<bar>sint dx\<bar> + \<bar>sint dy\<bar>)"
  have nz: "sum16 (abs16 dx) (abs16 dy) \<noteq> 0"
    using assms False by (simp add: sum16_zero_iff)
  have r: "uint ?ratio = ?r"
    using assms False by (rule uint_ratio16_abs)
  have pos: "0 < \<bar>sint dx\<bar> + \<bar>sint dy\<bar>"
    using False by linarith
  have le: "uint ?ratio \<le> 1024"
    unfolding r using pos by (intro ratio_le) simp_all
  have unfold: "pseudo_angle dx dy =
      (if 0 \<le> sint dx \<and> 0 \<le> sint dy then ?ratio
       else if sint dx < 0 \<and> 0 \<le> sint dy then ucast (1024 + (1024 - (ucast ?ratio :: 32 word)))
       else if sint dx < 0 \<and> sint dy < 0 then ucast (2048 + (ucast ?ratio :: 32 word))
       else ucast (3072 + (1024 - (ucast ?ratio :: 32 word))))"
    using nz by (simp add: pseudo_angle_def Let_def word_sle_eq word_sless_alt)
  show ?thesis
    using False r uint_angle_q2 [OF le] uint_angle_q3 [OF le] uint_angle_q4 [OF le]
    by (simp add: unfold)
qed

lemma pseudo_angle_le_4096:
  assumes "sint dy \<noteq> - 32768"
  shows "uint (pseudo_angle dx dy) \<le> 4096"
proof (cases "sint dx = 0 \<and> sint dy = 0")
  case True
  then show ?thesis using assms by (simp add: pseudo_angle_uint)
next
  case False
  define r where "r = \<bar>sint dy\<bar> * 1024 div (\<bar>sint dx\<bar> + \<bar>sint dy\<bar>)"
  have pos: "0 < \<bar>sint dx\<bar> + \<bar>sint dy\<bar>" using False by linarith
  have r0: "0 \<le> r" unfolding r_def using pos by (intro ratio_nonneg) simp_all
  have r1: "r \<le> 1024" unfolding r_def using pos by (intro ratio_le) simp_all
  have "uint (pseudo_angle dx dy) =
      (if 0 \<le> sint dx \<and> 0 \<le> sint dy then r
       else if sint dx < 0 \<and> 0 \<le> sint dy then 2048 - r
       else if sint dx < 0 \<and> sint dy < 0 then 2048 + r
       else 4096 - r)"
    unfolding r_def using False pseudo_angle_uint [OF assms, of dx] by simp
  then show ?thesis using r0 r1 by simp
qed

lemma pseudo_angle_by_quadrant:
  assumes "sint dy \<noteq> - 32768"
  shows "(0 \<le> sint dx \<and> 0 \<le> sint dy \<longrightarrow> uint (pseudo_angle dx dy) \<le> 1024)
       \<and> (sint dx < 0 \<and> 0 \<le> sint dy \<longrightarrow>
            1024 < uint (pseudo_angle dx dy) \<and> uint (pseudo_angle dx dy) \<le> 2048)
       \<and> (sint dx < 0 \<and> sint dy < 0 \<longrightarrow>
            2048 \<le> uint (pseudo_angle dx dy) \<and> uint (pseudo_angle dx dy) < 3072)
       \<and> (0 \<le> sint dx \<and> sint dy < 0 \<longrightarrow>
            3072 \<le> uint (pseudo_angle dx dy) \<and> uint (pseudo_angle dx dy) \<le> 4096)"
proof (cases "sint dx = 0 \<and> sint dy = 0")
  case True
  then show ?thesis using assms by (simp add: pseudo_angle_uint)
next
  case False
  define r where "r = \<bar>sint dy\<bar> * 1024 div (\<bar>sint dx\<bar> + \<bar>sint dy\<bar>)"
  have pos: "0 < \<bar>sint dx\<bar> + \<bar>sint dy\<bar>" using False by linarith
  have r0: "0 \<le> r" unfolding r_def using pos by (intro ratio_nonneg) simp_all
  have r1: "r \<le> 1024" unfolding r_def using pos by (intro ratio_le) simp_all
  have r2: "sint dx < 0 \<Longrightarrow> r < 1024" unfolding r_def using pos by (intro ratio_less) simp_all
  have "uint (pseudo_angle dx dy) =
      (if 0 \<le> sint dx \<and> 0 \<le> sint dy then r
       else if sint dx < 0 \<and> 0 \<le> sint dy then 2048 - r
       else if sint dx < 0 \<and> sint dy < 0 then 2048 + r
       else 4096 - r)"
    unfolding r_def using False pseudo_angle_uint [OF assms, of dx] by simp
  then show ?thesis using r0 r1 r2 by auto
qed

text \<open>Unfolding a call of the estimator on given numbers.\<close>

lemmas pseudo_angle_eval =
  pseudo_angle_def abs16_def sum16_def ratio16_def abs_int_def word_sless_alt word_sle_eq Let_def

section \<open>Claims about the angle estimator\<close>

text \<open>
  Claim C8. On the axes and at the origin the estimator returns exactly:
  0 at \<open>(1,0)\<close>, 1024 at \<open>(0,1)\<close>, 2048 at \<open>(-1,0)\<close>, 3072 at \<open>(0,-1)\<close> and 0 at \<open>(0,0)\<close>.
\<close>

theorem pseudo_angle_axes:
  "pseudo_angle 1 0 = 0 \<and> pseudo_angle 0 1 = 1024 \<and> pseudo_angle (- 1) 0 = 2048
   \<and> pseudo_angle 0 (- 1) = 3072 \<and> pseudo_angle 0 0 = 0"
  by (simp add: pseudo_angle_eval)

text \<open>
  Claim C1, as stated: every pair of \<open>int16\<close> inputs gives an angle in the half-open
  range from 0 up to, and without, 4096. The code returns 4096 itself just below the
  positive x axis, where the ratio is 0 and the fourth quadrant's formula gives
  \<open>3072 + 1024\<close>; and for \<open>dy = -32768\<close> the stored absolute value is negative and the
  angle leaves the range altogether.
\<close>

theorem pseudo_angle_half_open_counterexample:
  "\<not> uint (pseudo_angle 2000 (- 1)) < 4096 \<and> \<not> uint (pseudo_angle 0 (- 32768)) < 4096"
  by (simp add: pseudo_angle_eval)

text \<open>
  Claim C1, amended: for every \<open>dx\<close> and every \<open>dy\<close> other than \<open>-32768\<close> the angle lies
  in the closed range from 0 to 4096.
\<close>

theorem pseudo_angle_closed_range:
  assumes "sint dy \<noteq> - 32768"
  shows "0 \<le> uint (pseudo_angle dx dy) \<and> uint (pseudo_angle dx dy) \<le> 4096"
  using assms by (simp add: pseudo_angle_le_4096)

theorem pseudo_angle_closed_range_witness:
  "sint (- 1 :: 16 word) \<noteq> - 32768
   \<and> 0 \<le> uint (pseudo_angle 2000 (- 1)) \<and> uint (pseudo_angle 2000 (- 1)) \<le> 4096"
  using pseudo_angle_closed_range [where dy = "- 1" and dx = 2000] by simp

text \<open>
  Claim C3, as stated: the angle lies in \<open>[0,1024)\<close>, \<open>[1024,2048)\<close>, \<open>[2048,3072)\<close> or
  \<open>[3072,4096)\<close> according to the signs of \<open>dx\<close> and \<open>dy\<close>. On the positive y axis the
  first quadrant gives 1024, on the negative x axis the second gives 2048, just below the
  positive x axis the fourth gives 4096; and with \<open>dy = -32768\<close> the third quadrant gives
  an angle below 2048.
\<close>

theorem pseudo_angle_quadrant_counterexample:
  "(0 \<le> sint (0 :: 16 word) \<and> 0 \<le> sint (1 :: 16 word) \<and> \<not> uint (pseudo_angle 0 1) < 1024)
   \<and> (sint (- 1 :: 16 word) < 0 \<and> 0 \<le> sint (0 :: 16 word) \<and> \<not> uint (pseudo_angle (- 1) 0) < 2048)
   \<and> (0 \<le> sint (2000 :: 16 word) \<and> sint (- 1 :: 16 word) < 0
        \<and> \<not> uint (pseudo_angle 2000 (- 1)) < 4096)
   \<and> (sint (- 1 :: 16 word) < 0 \<and> sint (- 32768 :: 16 word) < 0
        \<and> \<not> 2048 \<le> uint (pseudo_angle (- 1) (- 32768)))"
  by (simp add: pseudo_angle_eval)

text \<open>
  Claim C3, amended: for every \<open>dx\<close> and every \<open>dy\<close> other than \<open>-32768\<close> the angle lies
  in \<open>[0,1024]\<close> when \<open>dx \<ge> 0\<close> and \<open>dy \<ge> 0\<close>, in \<open>(1024,2048]\<close> when \<open>dx < 0\<close> and
  \<open>dy \<ge> 0\<close>, in \<open>[2048,3072)\<close> when \<open>dx < 0\<close> and \<open>dy < 0\<close>, and in \<open>[3072,4096]\<close> when
  \<open>dx \<ge> 0\<close> and \<open>dy < 0\<close>.
\<close>

theorem pseudo_angle_quadrant_ranges:
  assumes "sint dy \<noteq> - 32768"
  shows "(0 \<le> sint dx \<and> 0 \<le> sint dy \<longrightarrow> uint (pseudo_angle dx dy) \<le> 1024)
       \<and> (sint dx < 0 \<and> 0 \<le> sint dy \<longrightarrow>
            1024 < uint (pseudo_angle dx dy) \<and> uint (pseudo_angle dx dy) \<le> 2048)
       \<and> (sint dx < 0 \<and> sint dy < 0 \<longrightarrow>
            2048 \<le> uint (pseudo_angle dx dy) \<and> uint (pseudo_angle dx dy) < 3072)
       \<and> (0 \<le> sint dx \<and> sint dy < 0 \<longrightarrow>
            3072 \<le> uint (pseudo_angle dx dy) \<and> uint (pseudo_angle dx dy) \<le> 4096)"
  using assms by (rule pseudo_angle_by_quadrant)

theorem pseudo_angle_quadrant_ranges_witness:
  "(sint (4 :: 16 word) \<noteq> - 32768 \<and> 0 \<le> sint (3 :: 16 word) \<and> 0 \<le> sint (4 :: 16 word)
      \<and> uint (pseudo_angle 3 4) \<le> 1024)
   \<and> (sint (- 3 :: 16 word) < 0
      \<and> 1024 < uint (pseudo_angle (- 3) 4) \<and> uint (pseudo_angle (- 3) 4) \<le> 2048)
   \<and> (sint (- 4 :: 16 word) \<noteq> - 32768 \<and> sint (- 4 :: 16 word) < 0
      \<and> 2048 \<le> uint (pseudo_angle (- 3) (- 4)) \<and> uint (pseudo_angle (- 3) (- 4)) < 3072)
   \<and> (3072 \<le> uint (pseudo_angle 3 (- 4)) \<and> uint (pseudo_angle 3 (- 4)) \<le> 4096)"
  using pseudo_angle_quadrant_ranges [where dx = 3 and dy = 4]
    pseudo_angle_quadrant_ranges [where dx = "- 3" and dy = 4]
    pseudo_angle_quadrant_ranges [where dx = "- 3" and dy = "- 4"]
    pseudo_angle_quadrant_ranges [where dx = 3 and dy = "- 4"]
  by simp

section \<open>The dead-zone test\<close>

lemma mag_sq_of_int: "mag_sq dx dy = word_of_int (magnitude_sq dx dy)"
  by (simp only: mag_sq_def magnitude_sq_def scast_eq wi_hom_mult wi_hom_add)

lemma magnitude_sq_nonneg: "0 \<le> magnitude_sq dx dy"
  by (simp add: magnitude_sq_def)

lemma magnitude_sq_bound:
  assumes "\<not> (sint dx = - 32768 \<and> sint dy = - 32768)"
  shows "magnitude_sq dx dy \<le> 2147483647"
proof -
  have x: "sint dx * sint dx \<le> 32768 * 32768"
    using sint16_lower [of dx] sint16_upper [of dx] by (intro square_bound) linarith
  have y: "sint dy * sint dy \<le> 32768 * 32768"
    using sint16_lower [of dy] sint16_upper [of dy] by (intro square_bound) linarith
  from assms consider "sint dx \<noteq> - 32768" | "sint dy \<noteq> - 32768" by blast
  then show ?thesis
  proof cases
    case 1
    then have "sint dx * sint dx \<le> 32767 * 32767"
      using sint16_lower [of dx] sint16_upper [of dx] by (intro square_bound) linarith
    then show ?thesis using y by (simp add: magnitude_sq_def)
  next
    case 2
    then have "sint dy * sint dy \<le> 32767 * 32767"
      using sint16_lower [of dy] sint16_upper [of dy] by (intro square_bound) linarith
    then show ?thesis using x by (simp add: magnitude_sq_def)
  qed
qed

text \<open>
  \<open>mag_sq\<close> is the squared magnitude for every sample but \<open>(-32768, -32768)\<close>, whose
  squared magnitude \<open>2^31\<close> is one more than an \<open>int32_t\<close> holds.
\<close>

lemma sint_mag_sq:
  assumes "\<not> (sint dx = - 32768 \<and> sint dy = - 32768)"
  shows "sint (mag_sq dx dy) = magnitude_sq dx dy"
  using magnitude_sq_nonneg [of dx dy] magnitude_sq_bound [OF assms]
  by (simp only: mag_sq_of_int) (intro sint_of_int32, linarith+)

lemma magnitude_sq_min:
  assumes "sint dx = - 32768 \<and> sint dy = - 32768"
  shows "magnitude_sq dx dy = 2147483648"
  using assms by (simp add: magnitude_sq_def)

lemma dead_zone_test:
  assumes "\<not> (sint dx = - 32768 \<and> sint dy = - 32768)"
  shows "mag_sq dx dy <s dead_zone_sq \<longleftrightarrow> magnitude_sq dx dy < 25"
  using assms by (simp add: word_sless_alt sint_mag_sq dead_zone_sq_def)

lemma dead_zone_small:
  assumes "magnitude_sq dx dy < 25"
  shows "mag_sq dx dy <s dead_zone_sq"
proof -
  have "\<not> (sint dx = - 32768 \<and> sint dy = - 32768)"
    using assms magnitude_sq_min [of dx dy] by auto
  then show ?thesis using assms by (simp add: dead_zone_test)
qed

section \<open>The branches of the pointer module's processor\<close>

lemma process_other:
  assumes "event_type event \<noteq> ZMK_INPUT_EVENT_TYPE_POINTING"
  shows "circular_scroll_process_gain gain s event = (0, s, event)"
  using assms by (simp add: circular_scroll_process_gain_def)

lemma process_dead_zone:
  assumes "event_type event = ZMK_INPUT_EVENT_TYPE_POINTING"
    and "magnitude_sq (pointing_dx (pointing event)) (pointing_dy (pointing event)) < 25"
  shows "circular_scroll_process_gain gain s event = (0, s\<lparr>cs_active := False\<rparr>, event)"
  using assms by (simp add: circular_scroll_process_gain_def Let_def dead_zone_small)

lemma process_activate:
  assumes "event_type event = ZMK_INPUT_EVENT_TYPE_POINTING"
    and "25 \<le> magnitude_sq (pointing_dx (pointing event)) (pointing_dy (pointing event))"
    and "\<not> (sint (pointing_dx (pointing event)) = - 32768
           \<and> sint (pointing_dy (pointing event)) = - 32768)"
    and "\<not> cs_active s"
  shows "circular_scroll_process_gain gain s event =
    (0, s\<lparr>cs_active := True,
           cs_prev_angle := pseudo_angle (pointing_dx (pointing event)) (pointing_dy (pointing event))\<rparr>,
     event)"
  using assms by (simp add: circular_scroll_process_gain_def Let_def dead_zone_test)

lemma process_track:
  assumes "event_type event = ZMK_INPUT_EVENT_TYPE_POINTING"
    and "25 \<le> magnitude_sq (pointing_dx (pointing event)) (pointing_dy (pointing event))"
    and "\<not> (sint (pointing_dx (pointing event)) = - 32768
           \<and> sint (pointing_dy (pointing event)) = - 32768)"
    and "cs_active s"
  shows "circular_scroll_process_gain gain s event =
    (1, s\<lparr>cs_prev_angle := pseudo_angle (pointing_dx (pointing event)) (pointing_dy (pointing event))\<rparr>,
     scroll_event event
       (ucast (scroll_value_of gain
         (wrap_delta (raw_delta
           (pseudo_angle (pointing_dx (pointing event)) (pointing_dy (pointing event)))
           (cs_prev_angle s))))))"
  using assms
  by (simp add: circular_scroll_process_gain_def Let_def dead_zone_test scroll_event_def)

lemma trackpad_dead_zone:
  assumes "event_type event = ZMK_INPUT_EVENT_TYPE_POINTING"
    and "magnitude_sq (pointing_dx (pointing event)) (pointing_dy (pointing event)) < 25"
  shows "trackpad_scroll_process_gain gain t event = (0, t\<lparr>tp_active := False\<rparr>, event)"
  using assms dead_zone_small [of "pointing_dx (pointing event)" "pointing_dy (pointing event)"]
  by (simp add: trackpad_scroll_process_gain_def Let_def mag_sq_def dead_zone_sq_def)

text \<open>Unfolding a call of the processor on a given state and sample.\<close>

lemmas process_eval =
  circular_scroll_process_def circular_scroll_process_gain_def cs_state_init_def sample_def
  mag_sq_def dead_zone_sq_def raw_delta_def wrap_delta_def scroll_value_of_def div_int_def
  signed_divide_int_def scroll_event_def magnitude_sq_def

section \<open>Claims about the dead zone and the activation\<close>

text \<open>
  Claim C4. In either state, a sample with \<open>dx\<^sup>2 + dy\<^sup>2 < 25\<close> produces no scroll output
  (the processor returns 0 and leaves the event as it was) and the state after it is
  inactive.
\<close>

theorem dead_zone_resets:
  assumes "event_type event = ZMK_INPUT_EVENT_TYPE_POINTING"
    and "magnitude_sq (pointing_dx (pointing event)) (pointing_dy (pointing event)) < 25"
  shows "fst (circular_scroll_process s event) = 0
       \<and> snd (snd (circular_scroll_process s event)) = event
       \<and> \<not> cs_active (fst (snd (circular_scroll_process s event)))"
  using assms by (simp add: circular_scroll_process_def process_dead_zone)

theorem dead_zone_resets_witness:
  "event_type (sample 2 2) = ZMK_INPUT_EVENT_TYPE_POINTING
   \<and> magnitude_sq (pointing_dx (pointing (sample 2 2))) (pointing_dy (pointing (sample 2 2))) < 25
   \<and> fst (circular_scroll_process \<lparr>cs_active = True, cs_prev_angle = 1024\<rparr> (sample 2 2)) = 0
   \<and> snd (snd (circular_scroll_process \<lparr>cs_active = True, cs_prev_angle = 1024\<rparr> (sample 2 2)))
       = sample 2 2
   \<and> \<not> cs_active (fst (snd
         (circular_scroll_process \<lparr>cs_active = True, cs_prev_angle = 1024\<rparr> (sample 2 2))))"
  using dead_zone_resets
    [where event = "sample 2 2" and s = "\<lparr>cs_active = True, cs_prev_angle = 1024\<rparr>"]
  by (simp add: sample_def magnitude_sq_def)

text \<open>
  Claim C10. A sample inside the dead zone leaves \<open>prev_angle\<close> as it was: the state
  after it is the state before it with only the active flag cleared. This holds for the
  pointer module and for the trackpad module.
\<close>

theorem dead_zone_keeps_prev_angle:
  assumes "event_type event = ZMK_INPUT_EVENT_TYPE_POINTING"
    and "magnitude_sq (pointing_dx (pointing event)) (pointing_dy (pointing event)) < 25"
  shows "fst (snd (circular_scroll_process s event)) = s\<lparr>cs_active := False\<rparr>
       \<and> cs_prev_angle (fst (snd (circular_scroll_process s event))) = cs_prev_angle s
       \<and> fst (snd (trackpad_scroll_process t event)) = t\<lparr>tp_active := False\<rparr>
       \<and> tp_prev_angle (fst (snd (trackpad_scroll_process t event))) = tp_prev_angle t"
  using assms
  by (simp add: circular_scroll_process_def trackpad_scroll_process_def process_dead_zone
      trackpad_dead_zone)

theorem dead_zone_keeps_prev_angle_witness:
  "event_type (sample 2 2) = ZMK_INPUT_EVENT_TYPE_POINTING
   \<and> magnitude_sq (pointing_dx (pointing (sample 2 2))) (pointing_dy (pointing (sample 2 2))) < 25
   \<and> fst (snd (circular_scroll_process \<lparr>cs_active = True, cs_prev_angle = 1024\<rparr> (sample 2 2)))
       = \<lparr>cs_active = False, cs_prev_angle = 1024\<rparr>
   \<and> cs_prev_angle (fst (snd
         (circular_scroll_process \<lparr>cs_active = True, cs_prev_angle = 1024\<rparr> (sample 2 2)))) = 1024
   \<and> fst (snd (trackpad_scroll_process \<lparr>tp_active = True, tp_prev_angle = 1024\<rparr> (sample 2 2)))
       = \<lparr>tp_active = False, tp_prev_angle = 1024\<rparr>
   \<and> tp_prev_angle (fst (snd
         (trackpad_scroll_process \<lparr>tp_active = True, tp_prev_angle = 1024\<rparr> (sample 2 2)))) = 1024"
  using dead_zone_keeps_prev_angle
    [where event = "sample 2 2" and s = "\<lparr>cs_active = True, cs_prev_angle = 1024\<rparr>"
       and t = "\<lparr>tp_active = True, tp_prev_angle = 1024\<rparr>"]
  by (simp add: sample_def magnitude_sq_def)

text \<open>
  The activation, for every sample outside the dead zone but \<open>(-32768, -32768)\<close>: from
  the inactive state the processor returns 0, leaves the event as it was, and the state
  becomes active with the sample's angle as \<open>prev_angle\<close>.
\<close>

lemma activation_sets_baseline:
  assumes "event_type event = ZMK_INPUT_EVENT_TYPE_POINTING"
    and "25 \<le> magnitude_sq (pointing_dx (pointing event)) (pointing_dy (pointing event))"
    and "\<not> (sint (pointing_dx (pointing event)) = - 32768
           \<and> sint (pointing_dy (pointing event)) = - 32768)"
    and "\<not> cs_active s"
  shows "circular_scroll_process s event =
    (0, \<lparr>cs_active = True,
         cs_prev_angle = pseudo_angle (pointing_dx (pointing event)) (pointing_dy (pointing event))\<rparr>,
     event)"
  using assms by (simp add: circular_scroll_process_def process_activate)

text \<open>
  Claim C5 asks for the activation on every sample with \<open>dx\<^sup>2 + dy\<^sup>2 \<ge> 25\<close>. The sample
  \<open>(-32768, -32768)\<close> has the largest squared magnitude there is, \<open>2^31\<close>; in the 32-bit
  \<open>mag_sq\<close> it becomes \<open>-2^31\<close>, the test \<open>mag_sq < 25\<close> succeeds, and the processor
  takes the dead-zone branch: the state stays inactive.
\<close>

theorem activation_missed_at_int16_min:
  "25 \<le> magnitude_sq (- 32768) (- 32768)
   \<and> sint (mag_sq (- 32768) (- 32768)) = - 2147483648
   \<and> circular_scroll_process \<lparr>cs_active = False, cs_prev_angle = 0\<rparr> (sample (- 32768) (- 32768))
       = (0, \<lparr>cs_active = False, cs_prev_angle = 0\<rparr>, sample (- 32768) (- 32768))"
  by (intro conjI) (simp_all add: process_eval word_sless_alt Let_def)

section \<open>The angular delta\<close>

lemma sint_sub_promoted:
  "sint ((scast (a :: 16 word) :: 32 word) - scast (b :: 16 word)) = sint a - sint b"
  using sint16_lower [of a] sint16_upper [of a] sint16_lower [of b] sint16_upper [of b]
  by (simp add: sint_word_ariths sint_promote signed_take_bit_int_eq_self)

lemma sint_raw_delta:
  assumes "- 32768 \<le> sint angle - sint prev" and "sint angle - sint prev \<le> 32767"
  shows "sint (raw_delta angle prev) = sint angle - sint prev"
  using assms by (simp add: raw_delta_def sint_truncate sint_sub_promoted)

lemma sint_sub_4096:
  "sint ((scast (d :: 16 word) :: 32 word) - 4096) = sint d - 4096"
  using sint16_lower [of d] sint16_upper [of d]
  by (simp add: sint_word_ariths sint_promote signed_take_bit_int_eq_self)

lemma sint_add_4096:
  "sint ((scast (d :: 16 word) :: 32 word) + 4096) = sint d + 4096"
  using sint16_lower [of d] sint16_upper [of d]
  by (simp add: sint_word_ariths sint_promote signed_take_bit_int_eq_self)

lemma sint_wrap_delta:
  "sint (wrap_delta delta) =
    (if 2048 < sint delta then sint delta - 4096
     else if sint delta < - 2048 then sint delta + 4096
     else sint delta)"
  using sint16_lower [of delta] sint16_upper [of delta]
  by (simp add: wrap_delta_def word_sless_alt sint_promote sint_truncate sint_sub_4096 sint_add_4096)

text \<open>Between two angles of the range 0 to 4096 the corrected delta is at most 2048 either way.\<close>

lemma wrap_delta_bound:
  assumes "uint angle \<le> 4096" and "uint prev \<le> 4096"
  shows "- 2048 \<le> sint (wrap_delta (raw_delta angle prev))
       \<and> sint (wrap_delta (raw_delta angle prev)) \<le> 2048"
proof -
  define k where "k = uint angle - uint prev"
  have k: "- 4096 \<le> k" "k \<le> 4096"
    unfolding k_def using assms uint_ge_0 [of angle] uint_ge_0 [of prev] by linarith+
  have a: "sint angle = uint angle" using assms(1) by (intro sint_small16) simp
  have p: "sint prev = uint prev" using assms(2) by (intro sint_small16) simp
  have "sint (raw_delta angle prev) = sint angle - sint prev"
    using k unfolding k_def a [symmetric] p [symmetric] by (intro sint_raw_delta) linarith+
  then have "sint (raw_delta angle prev) = k"
    by (simp only: a p k_def)
  then have "sint (wrap_delta (raw_delta angle prev)) =
      (if 2048 < k then k - 4096 else if k < - 2048 then k + 4096 else k)"
    by (simp only: sint_wrap_delta)
  then show ?thesis using k by simp
qed

text \<open>
  As long as no sample has \<open>dy = -32768\<close>, the stored angle stays within 0 to 4096 and
  every delta of a tracking step within \<open>-2048\<close> to 2048.
\<close>

lemma prev_angle_bounded_step:
  assumes "uint (cs_prev_angle s) \<le> 4096"
    and "sint (pointing_dy (pointing event)) \<noteq> - 32768"
  shows "uint (cs_prev_angle (fst (snd (circular_scroll_process_gain gain s event)))) \<le> 4096"
  using assms pseudo_angle_le_4096 [of "pointing_dy (pointing event)" "pointing_dx (pointing event)"]
  by (simp add: circular_scroll_process_gain_def Let_def)

lemma tracking_delta_bound:
  assumes "uint prev \<le> 4096" and "sint dy \<noteq> - 32768"
  shows "- 2048 \<le> sint (wrap_delta (raw_delta (pseudo_angle dx dy) prev))
       \<and> sint (wrap_delta (raw_delta (pseudo_angle dx dy) prev)) \<le> 2048"
  using assms by (intro wrap_delta_bound pseudo_angle_le_4096)

lemma wrap_delta_across_zero: "sint (wrap_delta (raw_delta 100 4000)) = 196"
  by (simp add: raw_delta_def wrap_delta_def word_sless_alt)

text \<open>
  Claim C6 asks for a corrected delta within \<open>-2048\<close> to 2048 on every tracking step.
  A sample with \<open>dy = -32768\<close> breaks it: \<open>abs(dy)\<close> is 32768, stored in the \<open>int16_t\<close>
  \<open>ay\<close> as \<open>-32768\<close>; the product \<open>ay * 1024U\<close> wraps around and the angle leaves the
  range 0 to 4096. After the sample \<open>(10, 0)\<close> has activated the tracker with
  \<open>prev_angle = 0\<close>, the sample \<open>(16384, -32768)\<close> gets the angle 48470 and the
  corrected delta \<open>-12970\<close>.
\<close>

theorem delta_out_of_range_at_int16_min:
  "circular_scroll_process \<lparr>cs_active = False, cs_prev_angle = 0\<rparr> (sample 10 0)
       = (0, \<lparr>cs_active = True, cs_prev_angle = 0\<rparr>, sample 10 0)
   \<and> 25 \<le> magnitude_sq 16384 (- 32768)
   \<and> pseudo_angle 16384 (- 32768) = 48470
   \<and> sint (wrap_delta (raw_delta (pseudo_angle 16384 (- 32768)) 0)) = - 12970
   \<and> circular_scroll_process \<lparr>cs_active = True, cs_prev_angle = 0\<rparr> (sample 16384 (- 32768))
       = (1, \<lparr>cs_active = True, cs_prev_angle = 48470\<rparr>,
          scroll_event (sample 16384 (- 32768)) (- 126))"
  by (intro conjI) (simp_all add: process_eval pseudo_angle_eval)

section \<open>Where the arithmetic leaves its types\<close>

lemma sint_mul_10: "sint ((scast (d :: 16 word) :: 32 word) * 10) = sint d * 10"
  using sint16_lower [of d] sint16_upper [of d]
  by (simp add: sint_word_ariths sint_promote signed_take_bit_int_eq_self)

lemma sdiv_1024:
  fixes k :: int
  shows "k sdiv 1024 = (if k < 0 then - (- k div 1024) else k div 1024)"
  by (simp add: signed_divide_int_def sgn_if)

text \<open>The scaling by 10 never leaves \<open>int\<close>, and its result fits the event's \<open>int16_t\<close>.\<close>

lemma sint_scroll_value_10:
  "sint (scroll_value_of 10 delta) = (sint delta * 10) sdiv 1024
   \<and> - 320 \<le> (sint delta * 10) sdiv 1024 \<and> (sint delta * 10) sdiv 1024 \<le> 320"
proof -
  let ?k = "sint delta * 10"
  have k: "- 327680 \<le> ?k" "?k \<le> 327670"
    using sint16_lower [of delta] sint16_upper [of delta] by linarith+
  have range: "- 320 \<le> ?k sdiv 1024 \<and> ?k sdiv 1024 \<le> 320"
    using k unfolding sdiv_1024 by (auto simp: div_le_mono)
  then have "sint (word_of_int (?k sdiv 1024) :: 32 word) = ?k sdiv 1024"
    by (intro sint_of_int32) linarith+
  then show ?thesis
    using range by (simp add: scroll_value_of_def div_int_def sint_mul_10)
qed

text \<open>
  With neither \<open>dx\<close> nor \<open>dy\<close> equal to \<open>-32768\<close>, every step of the estimator and the
  dead-zone test holds the value the integers give.
\<close>

lemma steps_exact_without_int16_min:
  assumes "sint dx \<noteq> - 32768" and "sint dy \<noteq> - 32768"
  shows "sint (mag_sq dx dy) = magnitude_sq dx dy"
    and "sint (abs16 dx) = \<bar>sint dx\<bar>"
    and "sint (abs16 dy) = \<bar>sint dy\<bar>"
    and "uint (sum16 (abs16 dx) (abs16 dy)) = \<bar>sint dx\<bar> + \<bar>sint dy\<bar>"
    and "\<not> (sint dx = 0 \<and> sint dy = 0) \<Longrightarrow>
      uint (ratio16 (abs16 dy) (sum16 (abs16 dx) (abs16 dy)))
        = \<bar>sint dy\<bar> * 1024 div (\<bar>sint dx\<bar> + \<bar>sint dy\<bar>)"
  using assms by (simp_all add: sint_mag_sq sint_abs16 uint_sum16_exact uint_ratio16_abs)

text \<open>
  Claim C2 asks that no arithmetic step overflows its type, for every pair of \<open>int16\<close>
  inputs. At \<open>-32768\<close> three steps do:
  \<^item> \<open>int16_t ay = abs(dy)\<close>: the absolute value is 32768, the stored value \<open>-32768\<close>;
  \<^item> \<open>(ay * 1024U) / sum\<close>: the product wraps around modulo \<open>2^32\<close> and the ratio, which
    the source's comment puts between 0 and 1024, is 64512 for the sample \<open>(0, -32768)\<close>,
    whose angle becomes 5120;
  \<^item> \<open>dx * dx + dy * dy\<close>: for \<open>(-32768, -32768)\<close> the sum is \<open>2^31\<close>, the stored
    \<open>int32_t\<close> is \<open>-2^31\<close>.
\<close>

theorem overflow_at_int16_min:
  "\<bar>sint (- 32768 :: 16 word)\<bar> = 32768
   \<and> sint (abs16 (- 32768)) = - 32768
   \<and> uint (ratio16 (abs16 (- 32768)) (sum16 (abs16 0) (abs16 (- 32768)))) = 64512
   \<and> pseudo_angle 0 (- 32768) = 5120
   \<and> magnitude_sq (- 32768) (- 32768) = 2147483648
   \<and> sint (mag_sq (- 32768) (- 32768)) = - 2147483648"
  by (intro conjI) (simp_all add: pseudo_angle_eval mag_sq_def magnitude_sq_def)

section \<open>A steady rotation\<close>

lemma rotation_first:
  "circular_scroll_process cs_state_init (sample 10 0)
    = (0, \<lparr>cs_active = True, cs_prev_angle = 0\<rparr>, sample 10 0)"
  by (simp add: process_eval pseudo_angle_eval)

lemma rotation_second:
  "circular_scroll_process \<lparr>cs_active = True, cs_prev_angle = 0\<rparr> (sample 0 10)
    = (1, \<lparr>cs_active = True, cs_prev_angle = 1024\<rparr>, scroll_event (sample 0 10) 10)"
  by (simp add: process_eval pseudo_angle_eval)

lemma rotation_third:
  "circular_scroll_process \<lparr>cs_active = True, cs_prev_angle = 1024\<rparr> (sample (- 10) 0)
    = (1, \<lparr>cs_active = True, cs_prev_angle = 2048\<rparr>, scroll_event (sample (- 10) 0) 10)"
  by (simp add: process_eval pseudo_angle_eval)

lemma rotation_values:
  "pseudo_angle 10 0 = 0" "pseudo_angle 0 10 = 1024" "pseudo_angle (- 10) 0 = 2048"
  "raw_delta 1024 0 = 1024" "wrap_delta 1024 = 1024" "raw_delta 2048 1024 = 1024"
  "scroll_value_of 10 1024 = 10"
  by (simp_all add: process_eval pseudo_angle_eval)

text \<open>
  Claim C7. From the initial, inactive state and with the gain 10 of the pointer module:
  \<open>(10, 0)\<close> gives no output and activates the tracker at angle 0; \<open>(0, 10)\<close> has angle
  1024, delta 1024 and scroll value \<open>1024 * 10 / 1024 = 10\<close>; \<open>(-10, 0)\<close> has angle 2048,
  delta 1024 and scroll value 10 again. The last conjunct runs the three samples in a row.
\<close>

theorem steady_rotation_scenario:
  "\<not> cs_active cs_state_init
   \<and> circular_scroll_process cs_state_init (sample 10 0)
       = (0, \<lparr>cs_active = True, cs_prev_angle = 0\<rparr>, sample 10 0)
   \<and> pseudo_angle 10 0 = 0
   \<and> pseudo_angle 0 10 = 1024
   \<and> raw_delta 1024 0 = 1024 \<and> wrap_delta 1024 = 1024
   \<and> scroll_value_of 10 1024 = 10
   \<and> circular_scroll_process \<lparr>cs_active = True, cs_prev_angle = 0\<rparr> (sample 0 10)
       = (1, \<lparr>cs_active = True, cs_prev_angle = 1024\<rparr>, scroll_event (sample 0 10) 10)
   \<and> pseudo_angle (- 10) 0 = 2048
   \<and> raw_delta 2048 1024 = 1024
   \<and> circular_scroll_process \<lparr>cs_active = True, cs_prev_angle = 1024\<rparr> (sample (- 10) 0)
       = (1, \<lparr>cs_active = True, cs_prev_angle = 2048\<rparr>, scroll_event (sample (- 10) 0) 10)
   \<and> circular_scroll_run 10 cs_state_init [sample 10 0, sample 0 10, sample (- 10) 0]
       = (\<lparr>cs_active = True, cs_prev_angle = 2048\<rparr>,
          [(0, sample 10 0), (1, scroll_event (sample 0 10) 10),
           (1, scroll_event (sample (- 10) 0) 10)])"
proof -
  have run: "circular_scroll_run 10 cs_state_init [sample 10 0, sample 0 10, sample (- 10) 0]
       = (\<lparr>cs_active = True, cs_prev_angle = 2048\<rparr>,
          [(0, sample 10 0), (1, scroll_event (sample 0 10) 10),
           (1, scroll_event (sample (- 10) 0) 10)])"
    using rotation_first rotation_second rotation_third
    by (simp add: circular_scroll_process_def)
  have init: "\<not> cs_active cs_state_init"
    by (simp add: cs_state_init_def)
  show ?thesis
    by (intro conjI init run rotation_first rotation_second rotation_third rotation_values)
qed

section \<open>The two modules side by side\<close>

lemma compute_pseudo_angle_eq: "compute_pseudo_angle dx dy = pseudo_angle dx dy"
  by (simp add: compute_pseudo_angle_def pseudo_angle_def abs16_def sum16_def ratio16_def Let_def)

lemma trackpad_step:
  "trackpad_scroll_process_gain gain (tp_of_cs s) event =
    (case circular_scroll_process_gain gain s event of
       (ret, s', event') \<Rightarrow> (ret, tp_of_cs s', event'))"
  by (simp add: trackpad_scroll_process_gain_def circular_scroll_process_gain_def tp_of_cs_def
      Let_def compute_pseudo_angle_eq mag_sq_def dead_zone_sq_def raw_delta_def wrap_delta_def
      scroll_value_of_def)

lemma trackpad_run:
  "trackpad_scroll_run gain (tp_of_cs s) events =
    (case circular_scroll_run gain s events of (s', outs) \<Rightarrow> (tp_of_cs s', outs))"
proof (induction events arbitrary: s)
  case Nil
  show ?case by simp
next
  case (Cons event events)
  obtain ret s' event' where step: "circular_scroll_process_gain gain s event = (ret, s', event')"
    by (cases "circular_scroll_process_gain gain s event")
  obtain final outs where rest: "circular_scroll_run gain s' events = (final, outs)"
    by (cases "circular_scroll_run gain s' events")
  show ?case
    using Cons.IH [of s'] by (simp add: trackpad_step step rest)
qed

lemma tp_of_cs_onto: "\<exists>s. t = tp_of_cs s"
  by (rule exI [of _ "\<lparr>cs_active = tp_active t, cs_prev_angle = tp_prev_angle t\<rparr>"])
    (simp add: tp_of_cs_def)

text \<open>
  Claim C9. The two angle estimators are the same function. With the same gain, the two
  processors take corresponding states to corresponding states and return the same
  \<open>int\<close> and the same event, for one event and for every sequence of events; every
  trackpad state corresponds to a pointer state. The processors of the sources are the
  instances with the gains 10 and 1.
\<close>

theorem modules_agree:
  "compute_pseudo_angle = pseudo_angle
   \<and> trackpad_scroll_process_gain gain (tp_of_cs s) event =
       (case circular_scroll_process_gain gain s event of
          (ret, s', event') \<Rightarrow> (ret, tp_of_cs s', event'))
   \<and> trackpad_scroll_run gain (tp_of_cs s) events =
       (case circular_scroll_run gain s events of (s', outs) \<Rightarrow> (tp_of_cs s', outs))
   \<and> (\<exists>s0. t = tp_of_cs s0)
   \<and> circular_scroll_process = circular_scroll_process_gain 10
   \<and> trackpad_scroll_process = trackpad_scroll_process_gain 1"
proof -
  have "compute_pseudo_angle = pseudo_angle"
    by (intro ext) (rule compute_pseudo_angle_eq)
  then show ?thesis
    using trackpad_step [of gain s event] trackpad_run [of gain s events] tp_of_cs_onto [of t]
    by (simp add: circular_scroll_process_def trackpad_scroll_process_def)
qed

end
